theory Spec2Isabelle
  imports Main "HOL-Library.Word"
begin

section \<open>Data model\<close>

text \<open>
  The three programs under \<open>src/lyra/cli_example\<close> (receiver, sender, loopback demo)
  share their data: PCM samples are \<open>int16_t\<close>, packet bytes are \<open>uint8_t\<close>, the frame
  count handed to a PortAudio callback is an \<open>unsigned long\<close> (64 bits on the POSIX
  branch of the sources, which is the branch embedded here), and a \<open>std::queue\<close> is a
  list whose head is the front of the queue.
\<close>

type_synonym sample = "16 word"
type_synonym byte = "8 word"
type_synonym ulong = "64 word"

text \<open>
  Behaviour the C++ standard leaves undefined is a value of the model, not a hole in it:
  in the callbacks, the \<open>int\<close> loop counter of the receiver running past \<open>INT_MAX\<close>
  and a write past the end of the output buffer.
\<close>

datatype error = SignedOverflow | OutOfBounds

definition INT_MAX :: int where
  "INT_MAX = 2 ^ 31 - 1"

text \<open>PortAudio's callback result: only \<open>paContinue\<close> keeps the stream running.\<close>

datatype PaStreamCallbackResult = paContinue | paComplete | paAbort

subsection \<open>The queues\<close>

text \<open>
  \<open>q.push(x)\<close> of \<open>std::queue\<close> appends at the back. The sources never call
  \<open>front()\<close> or \<open>pop()\<close> unguarded: every consumer runs, under the queue's mutex,
  \<^verbatim>\<open>if (!q.empty()) { x = q.front(); q.pop(); }\<close>
  which is \<open>try_pop\<close> below.
\<close>

definition push :: "'a \<Rightarrow> 'a list \<Rightarrow> 'a list" where
  "push x q = q @ [x]"

definition try_pop :: "'a list \<Rightarrow> 'a option \<times> 'a list" where
  "try_pop q = (if q \<noteq> [] then (Some (hd q), tl q) else (None, q))"

text \<open>
  A run of producer and consumer operations on one queue, in the order in which the
  mutex serialises them; the result is what the consumer saw at each \<open>try_pop\<close>, and
  the queue that is left.
\<close>

datatype 'a queue_op = Push 'a | TryPop

fun run_ops :: "'a queue_op list \<Rightarrow> 'a list \<Rightarrow> 'a option list \<times> 'a list" where
  "run_ops [] q = ([], q)"
| "run_ops (Push x # ops) q = run_ops ops (push x q)"
| "run_ops (TryPop # ops) q =
     (case try_pop q of (r, q') \<Rightarrow>
        (case run_ops ops q' of (seen, q'') \<Rightarrow> (r # seen, q'')))"

fun pushed :: "'a queue_op list \<Rightarrow> 'a list" where
  "pushed [] = []"
| "pushed (Push x # ops) = x # pushed ops"
| "pushed (TryPop # ops) = pushed ops"

fun popped :: "'a option list \<Rightarrow> 'a list" where
  "popped [] = []"
| "popped (None # rs) = popped rs"
| "popped (Some x # rs) = x # popped rs"

subsection \<open>The environment of a run\<close>

text \<open>
  What a program meets outside itself is its environment: whether \<open>std::stoi\<close>
  converts the port argument (\<open>None\<close>: it throws), whether the codec factories return an
  object, what the PortAudio calls return, which default devices exist (\<open>None\<close>:
  \<open>paNoDevice\<close>, for which \<open>Pa_GetDeviceInfo\<close> returns a null pointer), and what
  \<open>socket\<close> and \<open>bind\<close> return in the network thread.
\<close>

datatype PaError = paNoError | paOtherError

record env =
  stoi_port :: "int option"
  encoder_created :: bool
  decoder_created :: bool
  r_Pa_Initialize :: PaError
  default_input_device :: "nat option"
  default_output_device :: "nat option"
  r_Pa_OpenStream :: PaError
  r_Pa_StartStream :: PaError
  r_Pa_StopStream :: PaError
  r_Pa_CloseStream :: PaError
  socket_result :: int
  bind_result :: int

section \<open>Receiver: playback callback\<close>

text \<open>
  \<open>audioCallback\<close> of \<open>realtime_receiver.cc\<close> holds \<open>g_pcm_mutex\<close> for the whole
  call, so the decode worker cannot push between two positions of one frame and the
  callback is a function of the queue at entry. The loop
  \<^verbatim>\<open>for (int i = 0; i < frameCount; ++i)\<close>
  compares the \<open>int\<close> counter with the \<open>unsigned long\<close> frame count after converting
  the counter to \<open>unsigned long\<close>; \<open>++i\<close> at \<open>INT_MAX\<close> is undefined. \<open>out\<close> is the
  driver's buffer with whatever it held before the call.
\<close>

function playback_loop ::
  "ulong \<Rightarrow> int \<Rightarrow> sample list \<Rightarrow> sample list \<Rightarrow> error + (sample list \<times> sample list)" where
  "playback_loop frameCount i g_pcm_buffer out =
     (if (word_of_int i :: ulong) < frameCount then
        (if i < 0 \<or> length out \<le> nat i then Inl OutOfBounds
         else
           (case try_pop g_pcm_buffer of
              (Some s, q') \<Rightarrow>
                (if INT_MAX \<le> i then Inl SignedOverflow
                 else playback_loop frameCount (i + 1) q' (out[nat i := s]))
            | (None, q') \<Rightarrow>
                (if INT_MAX \<le> i then Inl SignedOverflow
                 else playback_loop frameCount (i + 1) q' (out[nat i := 0]))))
      else Inr (g_pcm_buffer, out))"
  by pat_completeness auto
termination
  by (relation "measure (\<lambda>(frameCount, i, q, out). nat (INT_MAX - i))") auto

definition receiver_audioCallback ::
  "ulong \<Rightarrow> sample list \<Rightarrow> sample list
     \<Rightarrow> error + (PaStreamCallbackResult \<times> sample list \<times> sample list)" where
  "receiver_audioCallback frameCount g_pcm_buffer out =
     (case playback_loop frameCount 0 g_pcm_buffer out of
        Inl e \<Rightarrow> Inl e
      | Inr (q', out') \<Rightarrow> Inr (paContinue, q', out'))"

section \<open>Receiver: network thread\<close>

text \<open>
  \<open>recvfrom\<close> is the operating system's: on a datagram socket it copies at most
  \<open>buffer.size()\<close> bytes of the next datagram into the buffer, discards the rest, and
  returns the number of bytes copied, or \<open>-1\<close> when it fails. \<open>resize\<close> is
  \<open>std::vector::resize\<close>.
\<close>

datatype recv_outcome = RecvFailed | Datagram "byte list"

definition recvfrom :: "recv_outcome \<Rightarrow> byte list \<Rightarrow> int \<times> byte list" where
  "recvfrom r buffer =
     (case r of
        RecvFailed \<Rightarrow> (- 1, buffer)
      | Datagram d \<Rightarrow>
          (int (min (length d) (length buffer)),
           take (length buffer) d @ drop (length d) buffer))"

definition resize :: "nat \<Rightarrow> byte list \<Rightarrow> byte list" where
  "resize n v = take n v @ replicate (n - length v) 0"

text \<open>One pass through the body of \<open>while(!g_finished)\<close> in \<open>network_thread_func\<close>.\<close>

definition network_iteration :: "recv_outcome \<Rightarrow> byte list list \<Rightarrow> byte list list" where
  "network_iteration r g_jitter_buffer =
     (let buffer = replicate 256 0 in
      case recvfrom r buffer of (bytes_received, buffer') \<Rightarrow>
        if bytes_received > 0 then push (resize (nat bytes_received) buffer') g_jitter_buffer
        else g_jitter_buffer)"

text \<open>
  The loop is driven by what the thread meets at each turn: the value of \<open>g_finished\<close>
  it reads at the loop head and, when that is false, the outcome of its \<open>recvfrom\<close>.
  \<open>None\<close> means that the thread is still in the loop when the observations end.
\<close>

fun network_loop :: "(bool \<times> recv_outcome) list \<Rightarrow> byte list list \<Rightarrow> byte list list option" where
  "network_loop [] g_jitter_buffer = None"
| "network_loop ((g_finished, r) # ticks) g_jitter_buffer =
     (if g_finished then Some g_jitter_buffer
      else network_loop ticks (network_iteration r g_jitter_buffer))"

datatype thread_exit = SocketFailed | BindFailed | LoopLeft

text \<open>
  \<open>network_thread_func\<close> of the receiver. The thread returns at once when \<open>socket\<close>
  or \<open>bind\<close> fails; its result carries \<open>g_socket_handle\<close> and the packet queue.
\<close>

definition receiver_network_thread_func ::
  "env \<Rightarrow> (bool \<times> recv_outcome) list \<Rightarrow> byte list list
     \<Rightarrow> (thread_exit \<times> int \<times> byte list list) option" where
  "receiver_network_thread_func e ticks g_jitter_buffer =
     (let g_socket_handle = socket_result e in
      if g_socket_handle < 0 then Some (SocketFailed, g_socket_handle, g_jitter_buffer)
      else if bind_result e < 0 then Some (BindFailed, g_socket_handle, g_jitter_buffer)
      else
        (case network_loop ticks g_jitter_buffer of
           None \<Rightarrow> None
         | Some q \<Rightarrow> Some (LoopLeft, g_socket_handle, q)))"

section \<open>Receiver: decode worker\<close>

text \<open>
  The Lyra codec is not part of these sources; the programs use it through
  \<open>Encode\<close>, \<open>SetEncodedPacket\<close> and \<open>DecodeSamples\<close>. Each is a parameter here: a
  function of the codec object's state that returns its answer and the new state.
\<close>

record 'e LyraEncoder =
  Encode :: "'e \<Rightarrow> sample list \<Rightarrow> byte list option \<times> 'e"

record 'd LyraDecoder =
  SetEncodedPacket :: "'d \<Rightarrow> byte list \<Rightarrow> bool \<times> 'd"
  DecodeSamples :: "'d \<Rightarrow> int \<Rightarrow> sample list option \<times> 'd"

definition kSampleRate :: int where
  "kSampleRate = 16000"

definition kNumChannels :: int where
  "kNumChannels = 1"

definition kFramesPerBuffer :: int where
  "kFramesPerBuffer = kSampleRate div 50"

record 'd receiver_state =
  g_jitter_buffer :: "byte list list"
  g_pcm_buffer :: "sample list"
  decoder :: 'd

text \<open>
  One pass through the body of \<open>while(!g_finished)\<close> in \<open>decoder_thread_func\<close>.
  \<open>encoded_packet\<close> starts as the empty vector and stays empty when the queue is empty;
  the \<open>for\<close> over the decoded samples is the \<open>foldl\<close>. The 5 ms sleep of the
  \<open>else\<close> branch changes nothing in the state. The pop runs under \<open>g_jitter_mutex\<close>
  and the whole \<open>for\<close> under \<open>g_pcm_mutex\<close>; what the other threads do to the queues
  between two critical sections is not part of a pass, whose state is the one the worker
  sees.
\<close>

definition decoder_iteration :: "'d LyraDecoder \<Rightarrow> 'd receiver_state \<Rightarrow> 'd receiver_state" where
  "decoder_iteration dec s =
     (case try_pop (g_jitter_buffer s) of (r, jitter') \<Rightarrow>
        let encoded_packet = (case r of None \<Rightarrow> [] | Some p \<Rightarrow> p);
            s1 = s\<lparr>g_jitter_buffer := jitter'\<rparr>
        in
          if encoded_packet \<noteq> [] then
            (case SetEncodedPacket dec (decoder s1) encoded_packet of (accepted, d1) \<Rightarrow>
               if accepted then
                 (case DecodeSamples dec d1 kFramesPerBuffer of (decoded, d2) \<Rightarrow>
                    (case decoded of
                       Some frame \<Rightarrow>
                         s1\<lparr>g_pcm_buffer := foldl (\<lambda>q sample. push sample q) (g_pcm_buffer s1) frame,
                            decoder := d2\<rparr>
                     | None \<Rightarrow> s1\<lparr>decoder := d2\<rparr>))
               else s1\<lparr>decoder := d1\<rparr>)
          else s1)"

text \<open>
  The worker's loop, driven by the values of \<open>g_finished\<close> it reads at the loop head;
  \<open>None\<close> means that it is still in the loop when the observations end.
\<close>

fun decoder_thread_func ::
  "'d LyraDecoder \<Rightarrow> bool list \<Rightarrow> 'd receiver_state \<Rightarrow> 'd receiver_state option" where
  "decoder_thread_func dec [] s = None"
| "decoder_thread_func dec (g_finished # reads) s =
     (if g_finished then Some s else decoder_thread_func dec reads (decoder_iteration dec s))"

text \<open>
  What the codec makes of a list of packets handed to it one after the other, each
  through \<open>SetEncodedPacket\<close> and then \<open>DecodeSamples\<close>: the answers in packet order.
  This is the reference against which the worker is compared, not part of the worker.
\<close>

fun decoded_frames :: "'d LyraDecoder \<Rightarrow> 'd \<Rightarrow> byte list list \<Rightarrow> sample list option list" where
  "decoded_frames dec d [] = []"
| "decoded_frames dec d (p # ps) =
     (case SetEncodedPacket dec d p of (accepted, d1) \<Rightarrow>
        if accepted then
          (case DecodeSamples dec d1 kFramesPerBuffer of (decoded, d2) \<Rightarrow>
             decoded # decoded_frames dec d2 ps)
        else None # decoded_frames dec d1 ps)"


section \<open>Sender: network thread\<close>

text \<open>
  \<open>network_thread_func\<close> of \<open>realtime_sender.cc\<close> creates its socket, then polls
  \<open>g_encoded_packets_queue\<close>; the state of one pass is the queue and the datagrams
  handed to \<open>sendto\<close> so far (its return value is not looked at).
\<close>

definition sender_network_iteration ::
  "byte list list \<times> byte list list \<Rightarrow> byte list list \<times> byte list list" where
  "sender_network_iteration st =
     (case st of (g_encoded_packets_queue, sent) \<Rightarrow>
        (case try_pop g_encoded_packets_queue of (r, q') \<Rightarrow>
           let packet_to_send = (case r of None \<Rightarrow> [] | Some p \<Rightarrow> p) in
           if packet_to_send \<noteq> [] then (q', sent @ [packet_to_send]) else (q', sent)))"

fun sender_network_loop ::
  "bool list \<Rightarrow> byte list list \<times> byte list list \<Rightarrow> (byte list list \<times> byte list list) option" where
  "sender_network_loop [] st = None"
| "sender_network_loop (g_finished # reads) st =
     (if g_finished then Some st else sender_network_loop reads (sender_network_iteration st))"

definition sender_network_thread_func ::
  "env \<Rightarrow> bool list \<Rightarrow> byte list list \<times> byte list list
     \<Rightarrow> (thread_exit \<times> byte list list \<times> byte list list) option" where
  "sender_network_thread_func e reads st =
     (let sock = socket_result e in
      if sock < 0 then Some (SocketFailed, st)
      else
        (case sender_network_loop reads st of
           None \<Rightarrow> None
         | Some st' \<Rightarrow> Some (LoopLeft, st')))"

section \<open>Loopback demo: audio callback\<close>

text \<open>
  \<open>std::fill(out, out + n, 0)\<close> and \<open>std::copy(v.begin(), v.end(), out)\<close> on the
  driver's buffer; writing past its end is undefined.
\<close>

definition fill :: "sample list \<Rightarrow> nat \<Rightarrow> sample \<Rightarrow> error + sample list" where
  "fill out n v = (if length out < n then Inl OutOfBounds else Inr (replicate n v @ drop n out))"

definition copy :: "sample list \<Rightarrow> sample list \<Rightarrow> error + sample list" where
  "copy v out = (if length out < length v then Inl OutOfBounds else Inr (v @ drop (length v) out))"

text \<open>
  \<open>audioCallback\<close> of \<open>realtime_demo.cc\<close>. \<open>inp\<close> is the driver's input buffer, of
  which the encoder is given the first \<open>frameCount\<close> samples; \<open>DecodeSamples\<close> takes
  an \<open>int\<close>, so the frame count is narrowed to 32 bits on the way. \<open>g_encoder\<close> and
  \<open>g_decoder\<close> are the states of the two global codec objects; the result carries the
  output buffer and their new states.
\<close>

definition demo_audioCallback ::
  "'e LyraEncoder \<Rightarrow> 'd LyraDecoder \<Rightarrow> 'e \<Rightarrow> 'd \<Rightarrow> sample list \<Rightarrow> sample list \<Rightarrow> ulong
     \<Rightarrow> error + (PaStreamCallbackResult \<times> sample list \<times> 'e \<times> 'd)" where
  "demo_audioCallback enc dec g_encoder g_decoder inp out frameCount =
     (case Encode enc g_encoder (take (unat frameCount) inp) of (encoded, e1) \<Rightarrow>
        (case encoded of
           Some packet \<Rightarrow>
             (case SetEncodedPacket dec g_decoder packet of (accepted, d1) \<Rightarrow>
                if accepted then
                  (case DecodeSamples dec d1 (sint (ucast frameCount :: 32 word)) of (decoded, d2) \<Rightarrow>
                     (case decoded of
                        Some frame \<Rightarrow>
                          (case copy frame out of
                             Inl e \<Rightarrow> Inl e
                           | Inr out' \<Rightarrow> Inr (paContinue, out', e1, d2))
                      | None \<Rightarrow>
                          (case fill out (unat (frameCount * word_of_int kNumChannels)) 0 of
                             Inl e \<Rightarrow> Inl e
                           | Inr out' \<Rightarrow> Inr (paContinue, out', e1, d2))))
                else
                  (case fill out (unat (frameCount * word_of_int kNumChannels)) 0 of
                     Inl e \<Rightarrow> Inl e
                   | Inr out' \<Rightarrow> Inr (paContinue, out', e1, d1)))
         | None \<Rightarrow>
             (case fill out (unat (frameCount * word_of_int kNumChannels)) 0 of
                Inl e \<Rightarrow> Inl e
              | Inr out' \<Rightarrow> Inr (paContinue, out', e1, g_decoder))))"

section \<open>The three \<open>main\<close> functions\<close>

datatype thread = NetworkThread | DecoderThread

text \<open>The calls of \<open>main\<close> that act on the codec, the threads, the socket and the stream.\<close>

datatype event =
    LyraEncoder_Create
  | LyraDecoder_Create
  | Thread_Start thread
  | Pa_Initialize
  | Pa_OpenStream
  | Pa_StartStream
  | Cin_Get
  | Set_g_finished
  | Shutdown_Socket
  | Thread_Join thread
  | Pa_StopStream
  | Pa_CloseStream
  | Pa_Terminate

text \<open>
  A process ends by returning from \<open>main\<close>, or earlier: by the exception of
  \<open>std::stoi\<close>, which nothing catches; by reading a field through the null pointer that
  \<open>Pa_GetDeviceInfo\<close> returns for \<open>paNoDevice\<close>; or by handing to \<open>Pa_StartStream\<close>
  the local \<open>stream\<close> that a failed \<open>Pa_OpenStream\<close> never set. The last two are
  undefined behaviour, and the model says nothing of what follows them.
\<close>

datatype process_end = Returned int | UncaughtException | NullDereference | UnsetStream

text \<open>
  Each \<open>main\<close> yields the calls it made, in program order, and how the process ended.
  No \<open>main\<close> looks at what its network thread met: \<open>socket_result\<close> and
  \<open>bind_result\<close> are read by the thread functions alone.
  The receiver and the sender ignore what the PortAudio calls return; the demo checks
  each with \<open>PA_CHECK\<close> and leaves through its \<open>error\<close> label. \<open>PA_CHECK(err)\<close> is
  a macro that names its argument twice, once in the test and once in
  \<open>Pa_GetErrorText(err)\<close>: a PortAudio call that fails under it is made a second time
  for the message, before the jump to \<open>error\<close>, and what that second call returns
  decides nothing. The two device lookups are tested directly, not through the macro.
\<close>

definition receiver_main :: "int \<Rightarrow> env \<Rightarrow> event list \<times> process_end" where
  "receiver_main argc e =
     (if argc \<noteq> 2 then ([], Returned 1)
      else
        (case stoi_port e of
           None \<Rightarrow> ([], UncaughtException)
         | Some port \<Rightarrow>
             if \<not> decoder_created e then ([LyraDecoder_Create], Returned 1)
             else
               (let started = [LyraDecoder_Create, Thread_Start NetworkThread,
                               Thread_Start DecoderThread, Pa_Initialize]
                in
                  case default_output_device e of
                    None \<Rightarrow> (started, NullDereference)
                  | Some device \<Rightarrow>
                      if r_Pa_OpenStream e \<noteq> paNoError
                      then (started @ [Pa_OpenStream], UnsetStream)
                      else
                      (started @
                         [Pa_OpenStream, Pa_StartStream, Cin_Get,
                          Set_g_finished, Shutdown_Socket,
                          Thread_Join NetworkThread, Thread_Join DecoderThread,
                          Pa_StopStream, Pa_CloseStream, Pa_Terminate],
                       Returned 0))))"

definition sender_main :: "int \<Rightarrow> env \<Rightarrow> event list \<times> process_end" where
  "sender_main argc e =
     (if argc \<noteq> 3 then ([], Returned 1)
      else
        (case stoi_port e of
           None \<Rightarrow> ([], UncaughtException)
         | Some port \<Rightarrow>
             if \<not> encoder_created e then ([LyraEncoder_Create], Returned 1)
             else
               (let started = [LyraEncoder_Create, Thread_Start NetworkThread, Pa_Initialize]
                in
                  case default_input_device e of
                    None \<Rightarrow> (started, NullDereference)
                  | Some device \<Rightarrow>
                      if r_Pa_OpenStream e \<noteq> paNoError
                      then (started @ [Pa_OpenStream], UnsetStream)
                      else
                      (started @
                         [Pa_OpenStream, Pa_StartStream, Cin_Get,
                          Set_g_finished,
                          Pa_StopStream, Pa_CloseStream, Pa_Terminate,
                          Thread_Join NetworkThread],
                       Returned 0))))"

definition demo_main :: "env \<Rightarrow> event list \<times> process_end" where
  "demo_main e =
     (let created = [LyraEncoder_Create, LyraDecoder_Create] in
      if \<not> encoder_created e \<or> \<not> decoder_created e then (created, Returned 1)
      else if r_Pa_Initialize e \<noteq> paNoError
        then (created @ [Pa_Initialize, Pa_Initialize, Pa_Terminate], Returned 1)
      else if default_input_device e = None
        then (created @ [Pa_Initialize, Pa_Terminate], Returned 1)
      else if default_output_device e = None
        then (created @ [Pa_Initialize, Pa_Terminate], Returned 1)
      else if r_Pa_OpenStream e \<noteq> paNoError
        then (created @ [Pa_Initialize, Pa_OpenStream, Pa_OpenStream, Pa_Terminate], Returned 1)
      else if r_Pa_StartStream e \<noteq> paNoError
        then (created @ [Pa_Initialize, Pa_OpenStream, Pa_StartStream, Pa_StartStream,
                         Pa_Terminate], Returned 1)
      else if r_Pa_StopStream e \<noteq> paNoError
        then (created @ [Pa_Initialize, Pa_OpenStream, Pa_StartStream, Cin_Get,
                         Pa_StopStream, Pa_StopStream, Pa_Terminate], Returned 1)
      else if r_Pa_CloseStream e \<noteq> paNoError
        then (created @ [Pa_Initialize, Pa_OpenStream, Pa_StartStream, Cin_Get,
                         Pa_StopStream, Pa_CloseStream, Pa_CloseStream, Pa_Terminate],
              Returned 1)
      else (created @ [Pa_Initialize, Pa_OpenStream, Pa_StartStream, Cin_Get,
                       Pa_StopStream, Pa_CloseStream, Pa_Terminate], Returned 0))"

text \<open>
  Reading a trace: \<open>precedes a b tr\<close> holds when both calls occur in \<open>tr\<close> and no \<open>b\<close>
  comes before the first \<open>a\<close>. \<open>stop_order workers tr\<close> is the order of the stop
  sequence: flag, transport shutdown, the joins of all \<open>workers\<close>, then stream stop and
  close.
\<close>

definition precedes :: "event \<Rightarrow> event \<Rightarrow> event list \<Rightarrow> bool" where
  "precedes a b tr =
     (a \<in> set tr \<and> b \<in> set tr \<and> b \<notin> set (takeWhile (\<lambda>x. x \<noteq> a) tr) \<and> a \<noteq> b)"

definition stop_order :: "thread list \<Rightarrow> event list \<Rightarrow> bool" where
  "stop_order workers tr =
     (precedes Set_g_finished Shutdown_Socket tr \<and>
      list_all (\<lambda>w. precedes Shutdown_Socket (Thread_Join w) tr) workers \<and>
      list_all (\<lambda>w. precedes (Thread_Join w) Pa_StopStream tr) workers \<and>
      precedes Pa_StopStream Pa_CloseStream tr)"

text \<open>
  \<open>calls_succeed e\<close>: the port argument converts, both codec factories return an
  object, the default devices exist and every PortAudio call returns \<open>paNoError\<close>.
  Nothing is said about \<open>socket\<close> and \<open>bind\<close>.
\<close>

definition calls_succeed :: "env \<Rightarrow> bool" where
  "calls_succeed e =
     (stoi_port e \<noteq> None \<and> encoder_created e \<and> decoder_created e \<and>
      r_Pa_Initialize e = paNoError \<and>
      default_input_device e \<noteq> None \<and> default_output_device e \<noteq> None \<and>
      r_Pa_OpenStream e = paNoError \<and> r_Pa_StartStream e = paNoError \<and>
      r_Pa_StopStream e = paNoError \<and> r_Pa_CloseStream e = paNoError)"

section \<open>Stand-ins for concrete runs\<close>

text \<open>
  An environment in which every call succeeds, and a small codec on which the programs
  can be run: it refuses a packet whose first byte is 255, decodes a packet of 8 bytes to
  a frame that repeats the packet's first byte, and produces no frame for a packet of any
  other length; it encodes a frame of 320 samples to 8 bytes and nothing else.
\<close>

definition env_ok :: env where
  "env_ok =
     \<lparr>stoi_port = Some 5000, encoder_created = True, decoder_created = True,
      r_Pa_Initialize = paNoError, default_input_device = Some 0,
      default_output_device = Some 0, r_Pa_OpenStream = paNoError,
      r_Pa_StartStream = paNoError, r_Pa_StopStream = paNoError,
      r_Pa_CloseStream = paNoError, socket_result = 3, bind_result = 0\<rparr>"

definition test_decoder :: "byte list LyraDecoder" where
  "test_decoder =
     \<lparr>SetEncodedPacket = (\<lambda>d p. (p \<noteq> [] \<and> hd p \<noteq> 255, p)),
      DecodeSamples = (\<lambda>d n.
        (if length d = 8 then Some (replicate (nat n) (ucast (hd d))) else None, d))\<rparr>"

definition test_encoder :: "unit LyraEncoder" where
  "test_encoder =
     \<lparr>Encode = (\<lambda>e frame.
        (if length frame = 320 then Some (replicate 8 (ucast (hd frame))) else None, e))\<rparr>"

section \<open>The playback callback of the receiver\<close>

text \<open>
  The counter of the loop and the frame count agree on every frame length that an
  \<open>int\<close> can hold, and on those the loop has a closed form: its result is the queue
  without its first \<open>n\<close> samples, and a buffer in which the positions still to be
  written hold the first \<open>n\<close> queued samples, followed by zeros.
\<close>

lemma unat_word_of_int_ulong:
  "0 \<le> i \<Longrightarrow> i \<le> INT_MAX \<Longrightarrow> unat (word_of_int i :: ulong) = nat i"
  by (simp add: INT_MAX_def unat_eq_nat_uint uint_word_of_int take_bit_int_eq_self)

lemma counter_less_iff:
  "0 \<le> i \<Longrightarrow> i \<le> INT_MAX \<Longrightarrow> (word_of_int i :: ulong) < N \<longleftrightarrow> nat i < unat N"
  by (simp add: word_less_nat_alt unat_word_of_int_ulong)

lemma playback_loop_eq:
  "0 \<le> i \<Longrightarrow> nat i + n = unat N \<Longrightarrow> unat N \<le> nat INT_MAX \<Longrightarrow> length out = unat N \<Longrightarrow>
   playback_loop N i q out =
     Inr (drop n q, take (nat i) out @ take n q @ replicate (n - length q) 0)"
proof (induction n arbitrary: i q out)
  case 0
  then have "i \<le> INT_MAX" by (simp add: INT_MAX_def)
  with 0 have "\<not> (word_of_int i :: ulong) < N"
    by (simp add: counter_less_iff)
  with 0 show ?case
    by (simp add: playback_loop.simps [of N i q out])
next
  case (Suc n)
  then have i_lt: "i < INT_MAX" and inb: "nat i < length out"
    by (simp_all add: INT_MAX_def)
  with Suc.prems have lt: "(word_of_int i :: ulong) < N"
    by (simp add: counter_less_iff)
  have step: "0 \<le> i + 1" "nat (i + 1) + n = unat N"
    using Suc.prems by simp_all
  show ?case
  proof (cases q)
    case Nil
    have "playback_loop N i q out = playback_loop N (i + 1) [] (out[nat i := 0])"
      using lt i_lt inb Suc.prems unfolding Nil
      by (subst playback_loop.simps) (simp add: try_pop_def)
    also have "\<dots> = Inr (drop n [], take (nat (i + 1)) (out[nat i := 0]) @ take n [] @ replicate (n - length ([]::sample list)) 0)"
      using Suc.IH [OF step(1) step(2), of "out[nat i := 0]" "[]"] Suc.prems by simp
    finally show ?thesis
      using Nil inb Suc.prems(1)
      by (simp add: nat_add_distrib take_Suc_conv_app_nth upd_conv_take_nth_drop replicate_append_same)
  next
    case (Cons s r)
    have "playback_loop N i q out = playback_loop N (i + 1) r (out[nat i := s])"
      using lt i_lt inb Suc.prems unfolding Cons
      by (subst playback_loop.simps) (simp add: try_pop_def)
    also have "\<dots> = Inr (drop n r, take (nat (i + 1)) (out[nat i := s]) @ take n r @ replicate (n - length r) 0)"
      using Suc.IH [OF step(1) step(2), of "out[nat i := s]" r] Suc.prems by simp
    finally show ?thesis
      using Cons inb Suc.prems(1)
      by (simp add: nat_add_distrib take_Suc_conv_app_nth)
  qed
qed

lemma receiver_audioCallback_eq:
  assumes "unat N \<le> nat INT_MAX" and "length out = unat N"
  shows "receiver_audioCallback N q out =
           Inr (paContinue, drop (unat N) q,
                take (unat N) q @ replicate (unat N - length q) 0)"
  using playback_loop_eq [of 0 "unat N" N out q] assms
  by (simp add: receiver_audioCallback_def)

text \<open>
  Claim C1. The playback callback, asked for \<open>N\<close> samples (\<open>N\<close> within the range of
  the \<open>int\<close> counter, the buffer \<open>N\<close> samples long), returns \<open>paContinue\<close> and an
  output frame of \<open>N\<close> samples in which position \<open>i\<close> holds the sample popped at that
  position, the \<open>i\<close>-th of the queue, while the queue lasts, and 0 at that position and
  at every later one once the queue is empty. With an empty queue at entry all \<open>N\<close>
  positions are 0, whatever the buffer held before, and the queue stays empty. The
  samples written are popped: the queue the callback leaves is the old one without its
  first \<open>N\<close> samples.
\<close>

theorem playback_callback_output:
  assumes "unat N \<le> nat INT_MAX" and "length out = unat N"
  shows "\<exists>q' out'. receiver_audioCallback N q out = Inr (paContinue, q', out')
           \<and> length out' = unat N
           \<and> (\<forall>i < unat N. out' ! i = (if i < length q then q ! i else 0))
           \<and> (q = [] \<longrightarrow> out' = replicate (unat N) 0 \<and> q' = [])
           \<and> q' = drop (unat N) q"
proof -
  let ?out = "take (unat N) q @ replicate (unat N - length q) 0"
  have "length ?out = unat N" by simp
  moreover have "\<forall>i < unat N. ?out ! i = (if i < length q then q ! i else 0)"
    by (simp add: nth_append)
  moreover have "q = [] \<longrightarrow> ?out = replicate (unat N) 0 \<and> drop (unat N) q = []" by simp
  ultimately show ?thesis
    using receiver_audioCallback_eq [OF assms, of q] by blast
qed

theorem playback_callback_output_witness:
  "unat (4 :: ulong) \<le> nat INT_MAX \<and> length [9, 9, 9, 9 :: sample] = unat (4 :: ulong)
   \<and> (\<exists>q' out'. receiver_audioCallback 4 [5, 7] [9, 9, 9, 9] = Inr (paContinue, q', out')
         \<and> length out' = unat (4 :: ulong)
         \<and> (\<forall>i < unat (4 :: ulong). out' ! i = (if i < length [5, 7 :: sample] then [5, 7] ! i else 0))
         \<and> ([5, 7 :: sample] = [] \<longrightarrow> out' = replicate (unat (4 :: ulong)) 0 \<and> q' = [])
         \<and> q' = drop (unat (4 :: ulong)) [5, 7])"
proof -
  have h1: "unat (4 :: ulong) \<le> nat INT_MAX" by (simp add: INT_MAX_def)
  have h2: "length [9, 9, 9, 9 :: sample] = unat (4 :: ulong)" by simp
  show ?thesis
    using h1 h2 playback_callback_output [OF h1 h2, of "[5, 7]"] by blast
qed

text \<open>
  Claim C9. The playback callback, asked for \<open>N\<close> samples on a queue of \<open>M\<close>, pops
  \<open>min N M\<close> samples; the queue it leaves is the old one without its first \<open>N\<close>
  samples, of length \<open>M - N\<close> (0 when \<open>N\<close> exceeds \<open>M\<close>), in the old order; and the
  popped samples are the first \<open>min N M\<close> positions of the output frame, so none is
  dropped unwritten.
\<close>

theorem playback_callback_queue:
  assumes "unat N \<le> nat INT_MAX" and "length out = unat N"
  shows "\<exists>out'. receiver_audioCallback N q out = Inr (paContinue, drop (unat N) q, out')
           \<and> length q - length (drop (unat N) q) = min (unat N) (length q)
           \<and> length (drop (unat N) q) = length q - unat N
           \<and> q = take (unat N) q @ drop (unat N) q
           \<and> length out' = unat N
           \<and> take (min (unat N) (length q)) out' = take (unat N) q"
proof -
  let ?out = "take (unat N) q @ replicate (unat N - length q) 0"
  have "take (min (unat N) (length q)) ?out = take (unat N) q"
    by (simp add: min_def)
  moreover have "length q - length (drop (unat N) q) = min (unat N) (length q)"
    by simp
  moreover have "length ?out = unat N"
    by simp
  ultimately show ?thesis
    using receiver_audioCallback_eq [OF assms, of q] by simp
qed

theorem playback_callback_queue_witness:
  "receiver_audioCallback 2 [5, 7, 8] [9, 9] = Inr (paContinue, [8], [5, 7])"
proof -
  have h1: "unat (2 :: ulong) \<le> nat INT_MAX" by (simp add: INT_MAX_def)
  have h2: "length [9, 9 :: sample] = unat (2 :: ulong)" by simp
  obtain out' where
    r: "receiver_audioCallback 2 [5, 7, 8] [9, 9] = Inr (paContinue, drop (unat (2 :: ulong)) [5, 7, 8], out')"
    and l: "length out' = unat (2 :: ulong)"
    and t: "take (min (unat (2 :: ulong)) (length [5, 7, 8 :: sample])) out' = take (unat (2 :: ulong)) [5, 7, 8]"
    using playback_callback_queue [OF h1 h2, of "[5, 7, 8]"] by blast
  from l t have "out' = [5, 7]" by simp
  with r show ?thesis by simp
qed

section \<open>The queues are first-in first-out\<close>

lemma run_ops_fifo:
  "run_ops ops q = (seen, q') \<Longrightarrow> popped seen @ q' = q @ pushed ops"
proof (induction ops q arbitrary: seen q' rule: run_ops.induct)
  case (1 q)
  then show ?case by simp
next
  case (2 x ops q)
  then show ?case by (simp add: push_def)
next
  case (3 ops q)
  obtain r q1 where tp: "try_pop q = (r, q1)" by (cases "try_pop q")
  obtain seen1 q2 where ro: "run_ops ops q1 = (seen1, q2)" by (cases "run_ops ops q1")
  from 3 tp ro have IH: "popped seen1 @ q2 = q1 @ pushed ops" by simp
  from 3 tp ro have eqs: "seen = r # seen1" "q' = q2" by simp_all
  show ?case
  proof (cases q)
    case Nil
    with tp have "r = None" "q1 = []" by (simp_all add: try_pop_def)
    with IH eqs Nil show ?thesis by simp
  next
    case (Cons a as)
    with tp have "r = Some a" "q1 = as" by (simp_all add: try_pop_def)
    with IH eqs Cons show ?thesis by simp
  qed
qed

text \<open>
  Claim C7. \<open>push\<close> appends at the tail; \<open>try_pop\<close> removes and returns the head of
  a non-empty queue and returns nothing, leaving the queue as it is, on an empty one;
  and over any run of pushes and try_pops the items the consumer saw, followed by what
  is left in the queue, are the initial queue followed by the pushed items: the consumer
  sees the items in the order in which they were pushed.
\<close>

theorem queue_fifo:
  "push x q = q @ [x]
   \<and> (q \<noteq> [] \<longrightarrow> try_pop q = (Some (hd q), tl q))
   \<and> (q = [] \<longrightarrow> try_pop q = (None, q))
   \<and> (run_ops ops q = (seen, q') \<longrightarrow> popped seen @ q' = q @ pushed ops)"
  using run_ops_fifo [of ops q seen q']
  by (simp add: push_def try_pop_def)

theorem queue_fifo_witness:
  "run_ops [TryPop, Push 1, Push 2, TryPop, Push 3, TryPop, TryPop, TryPop] [] =
     ([None, Some (1 :: nat), Some 2, Some 3, None], [])
   \<and> popped [None, Some (1 :: nat), Some 2, Some 3, None] @ [] =
       [] @ pushed [TryPop, Push 1, Push 2, TryPop, Push 3, TryPop, TryPop, TryPop]"
proof -
  have r: "run_ops [TryPop, Push 1, Push 2, TryPop, Push 3, TryPop, TryPop, TryPop] [] =
     ([None, Some (1 :: nat), Some 2, Some 3, None], [])"
    by (simp add: push_def try_pop_def)
  with queue_fifo [of 0 "[]" "[TryPop, Push 1, Push 2, TryPop, Push 3, TryPop, TryPop, TryPop]"
      "[None, Some (1 :: nat), Some 2, Some 3, None]" "[]"]
  show ?thesis by blast
qed


section \<open>The network thread of the receiver\<close>

lemma network_iteration_datagram:
  "network_iteration (Datagram d) q = (if d = [] then q else q @ [take 256 d])"
  by (auto simp add: network_iteration_def recvfrom_def resize_def push_def min_def Let_def)

lemma network_iteration_failed:
  "network_iteration RecvFailed q = q"
  by (simp add: network_iteration_def recvfrom_def)

lemma network_loop_runs:
  "network_loop (map (Pair False) rs @ (True, r) # rest) q =
     Some (foldl (\<lambda>q r. network_iteration r q) q rs)"
  by (induction rs arbitrary: q) simp_all

text \<open>
  Claim C4. In one pass of the receiver loop, when \<open>recvfrom\<close> returns a length greater
  than 0 the packet queue grows by exactly one packet, made of exactly the bytes received
  (the first \<open>bytes_received\<close> bytes of the buffer, which are the datagram's, cut at
  256); when it returns 0 or fails the queue is unchanged. Either way the loop goes on to
  its next pass, and it leaves only when it reads \<open>g_finished\<close> set: it makes one pass
  per receive outcome before that, whatever the outcomes were.
\<close>

theorem network_receiver_iteration:
  "(case recvfrom r (replicate 256 0) of (bytes_received, buffer') \<Rightarrow>
      (0 < bytes_received \<longrightarrow>
         network_iteration r q = q @ [take (nat bytes_received) buffer']
         \<and> (\<exists>d. r = Datagram d \<and> take (nat bytes_received) buffer' = take 256 d))
      \<and> (bytes_received \<le> 0 \<longrightarrow> network_iteration r q = q))
   \<and> network_loop ((False, r) # ticks) q = network_loop ticks (network_iteration r q)
   \<and> network_loop (map (Pair False) rs @ (True, r) # ticks) q =
        Some (foldl (\<lambda>q r. network_iteration r q) q rs)"
proof (cases r)
  case RecvFailed
  then show ?thesis
    using network_loop_runs [of rs r ticks q]
    by (simp add: network_iteration_failed recvfrom_def)
next
  case (Datagram d)
  then show ?thesis
    using network_loop_runs [of rs r ticks q]
    by (simp add: network_iteration_datagram recvfrom_def min_def)
qed

theorem network_receiver_iteration_witness:
  "network_iteration (Datagram [1, 2, 3]) [[9]] = [[9], [1, 2, 3]]
   \<and> network_iteration (Datagram []) [[9]] = [[9]]
   \<and> network_iteration RecvFailed [[9]] = [[9]]
   \<and> network_loop [(False, RecvFailed), (False, Datagram [1, 2, 3]), (False, Datagram []),
                    (True, RecvFailed)] [] = Some [[1, 2, 3]]"
proof -
  have a: "recvfrom (Datagram [1, 2, 3]) (replicate 256 0) = (3, [1, 2, 3] @ replicate 253 0)"
    by (simp add: recvfrom_def)
  have b: "recvfrom (Datagram []) (replicate 256 0) = (0, replicate 256 0)"
    by (simp add: recvfrom_def)
  have c: "recvfrom RecvFailed (replicate 256 0) = (- 1, replicate 256 0)"
    by (simp add: recvfrom_def)
  have 1: "network_iteration (Datagram [1, 2, 3]) [[9]] = [[9], [1, 2, 3]]"
    using network_receiver_iteration [of "Datagram [1, 2, 3]" "[[9]]" "[]" "[]"] a by simp
  have 2: "network_iteration (Datagram []) [[9]] = [[9]]"
    using network_receiver_iteration [of "Datagram []" "[[9]]" "[]" "[]"] b by simp
  have 3: "network_iteration RecvFailed [[9]] = [[9]]"
    using network_receiver_iteration [of RecvFailed "[[9]]" "[]" "[]"] c by simp
  have 4: "network_loop [(False, RecvFailed), (False, Datagram [1, 2, 3]), (False, Datagram []),
                    (True, RecvFailed)] [] =
           Some (foldl (\<lambda>q r. network_iteration r q) [] [RecvFailed, Datagram [1, 2, 3], Datagram []])"
    using network_receiver_iteration [of RecvFailed "[]" "[]" "[RecvFailed, Datagram [1, 2, 3], Datagram []]"]
    by simp
  have 5: "network_iteration (Datagram [1, 2, 3]) [] = [[1, 2, 3]]"
    using network_receiver_iteration [of "Datagram [1, 2, 3]" "[]" "[]" "[]"] a by simp
  have 6: "network_iteration (Datagram []) [[1, 2, 3]] = [[1, 2, 3]]"
    using network_receiver_iteration [of "Datagram []" "[[1, 2, 3]]" "[]" "[]"] b by simp
  have 7: "network_iteration RecvFailed [] = []"
    using network_receiver_iteration [of RecvFailed "[]" "[]" "[]"] c by simp
  from 1 2 3 4 5 6 7 show ?thesis by simp
qed

section \<open>The decode worker\<close>

lemma foldl_push: "foldl (\<lambda>q x. push x q) q xs = q @ xs"
  by (induction xs arbitrary: q) (simp_all add: push_def)

lemma decoder_iteration_idle:
  "g_jitter_buffer s = [] \<Longrightarrow> decoder_iteration dec s = s"
  by (simp add: decoder_iteration_def try_pop_def)

lemma decoder_iteration_packet:
  assumes "g_jitter_buffer s = p # rest"
  shows "decoder_iteration dec s =
     (let s1 = s\<lparr>g_jitter_buffer := rest\<rparr> in
      if p = [] then s1
      else
        (case SetEncodedPacket dec (decoder s) p of (accepted, d1) \<Rightarrow>
           if accepted then
             (case DecodeSamples dec d1 kFramesPerBuffer of (decoded, d2) \<Rightarrow>
                (case decoded of
                   Some frame \<Rightarrow> s1\<lparr>g_pcm_buffer := g_pcm_buffer s @ frame, decoder := d2\<rparr>
                 | None \<Rightarrow> s1\<lparr>decoder := d2\<rparr>))
           else s1\<lparr>decoder := d1\<rparr>))"
  using assms
  by (simp add: decoder_iteration_def try_pop_def foldl_push Let_def split: prod.splits option.splits)

lemma decoder_thread_func_runs:
  "decoder_thread_func dec (replicate k False @ True # rest) s =
     Some ((decoder_iteration dec ^^ k) s)"
  by (induction k arbitrary: s) (simp_all add: funpow_swap1)

text \<open>
  Claim C5. In one pass of the decode worker that finds a packet at the head of the
  packet queue, the packet is removed. When decode fails (the worker does not hand an
  empty packet to the codec, the codec refuses the packet, or it produces no frame) the
  sample queue is unchanged; when it succeeds the samples of the frame are appended to
  the sample queue in frame order. Whatever the outcome, the loop goes on with its next
  pass, and it makes exactly as many passes as it reads \<open>g_finished\<close> unset.
\<close>

theorem decode_worker_step:
  assumes "g_jitter_buffer s = p # rest"
  shows "(case SetEncodedPacket dec (decoder s) p of (accepted, d1) \<Rightarrow>
          (case DecodeSamples dec d1 kFramesPerBuffer of (decoded, d2) \<Rightarrow>
             g_jitter_buffer (decoder_iteration dec s) = rest
             \<and> (p = [] \<or> \<not> accepted \<or> decoded = None \<longrightarrow>
                  g_pcm_buffer (decoder_iteration dec s) = g_pcm_buffer s)
             \<and> (\<forall>frame. p \<noteq> [] \<and> accepted \<and> decoded = Some frame \<longrightarrow>
                  g_pcm_buffer (decoder_iteration dec s) = g_pcm_buffer s @ frame)))
         \<and> decoder_thread_func dec (False # reads) s =
             decoder_thread_func dec reads (decoder_iteration dec s)
         \<and> decoder_thread_func dec (replicate k False @ True # reads) s =
             Some ((decoder_iteration dec ^^ k) s)"
  using decoder_thread_func_runs [of dec k reads s]
  by (auto simp add: decoder_iteration_packet [OF assms] Let_def split: prod.splits option.splits)


theorem decode_worker_step_witness:
  "g_jitter_buffer (decoder_iteration test_decoder
      \<lparr>g_jitter_buffer = [[255, 1], [1, 2, 3, 4, 5, 6, 7, 8]], g_pcm_buffer = [4], decoder = []\<rparr>)
     = [[1, 2, 3, 4, 5, 6, 7, 8]]
   \<and> g_pcm_buffer (decoder_iteration test_decoder
      \<lparr>g_jitter_buffer = [[255, 1], [1, 2, 3, 4, 5, 6, 7, 8]], g_pcm_buffer = [4], decoder = []\<rparr>)
     = [4]
   \<and> g_jitter_buffer (decoder_iteration test_decoder
      \<lparr>g_jitter_buffer = [[1, 2, 3, 4, 5, 6, 7, 8]], g_pcm_buffer = [4], decoder = []\<rparr>)
     = []
   \<and> g_pcm_buffer (decoder_iteration test_decoder
      \<lparr>g_jitter_buffer = [[1, 2, 3, 4, 5, 6, 7, 8]], g_pcm_buffer = [4], decoder = []\<rparr>)
     = 4 # replicate 320 1
   \<and> g_pcm_buffer (decoder_iteration test_decoder
      \<lparr>g_jitter_buffer = [[1, 2]], g_pcm_buffer = [4], decoder = []\<rparr>)
     = [4]"
proof -
  let ?a = "\<lparr>g_jitter_buffer = [[255, 1], [1, 2, 3, 4, 5, 6, 7, 8 :: byte]],
             g_pcm_buffer = [4 :: sample], decoder = ([] :: byte list)\<rparr>"
  let ?b = "\<lparr>g_jitter_buffer = [[1, 2, 3, 4, 5, 6, 7, 8 :: byte]],
             g_pcm_buffer = [4 :: sample], decoder = ([] :: byte list)\<rparr>"
  have ha: "g_jitter_buffer ?a = [255, 1] # [[1, 2, 3, 4, 5, 6, 7, 8]]" by simp
  let ?c = "\<lparr>g_jitter_buffer = [[1, 2 :: byte]],
             g_pcm_buffer = [4 :: sample], decoder = ([] :: byte list)\<rparr>"
  have hb: "g_jitter_buffer ?b = [1, 2, 3, 4, 5, 6, 7, 8] # []" by simp
  have hc: "g_jitter_buffer ?c = [1, 2] # []" by simp
  have 1: "g_jitter_buffer (decoder_iteration test_decoder ?a) = [[1, 2, 3, 4, 5, 6, 7, 8]]
           \<and> g_pcm_buffer (decoder_iteration test_decoder ?a) = [4]"
    using decode_worker_step [OF ha, of test_decoder "[]" 0]
    by (simp add: test_decoder_def kFramesPerBuffer_def kSampleRate_def)
  have 2: "g_jitter_buffer (decoder_iteration test_decoder ?b) = []
           \<and> g_pcm_buffer (decoder_iteration test_decoder ?b) = 4 # replicate 320 1"
    using decode_worker_step [OF hb, of test_decoder "[]" 0]
    by (simp add: test_decoder_def kFramesPerBuffer_def kSampleRate_def)
  have 3: "g_pcm_buffer (decoder_iteration test_decoder ?c) = [4]"
    using decode_worker_step [OF hc, of test_decoder "[]" 0]
    by (simp add: test_decoder_def kFramesPerBuffer_def kSampleRate_def)
  from 1 2 3 show ?thesis by simp
qed

lemma length_decoded_frames: "length (decoded_frames dec d ps) = length ps"
  by (induction ps arbitrary: d) (simp_all split: prod.splits)

lemma decoder_iteration_idle_funpow:
  "g_jitter_buffer s = [] \<Longrightarrow> (decoder_iteration dec ^^ j) s = s"
  by (induction j) (simp_all add: decoder_iteration_idle)

lemma decoder_drain:
  "[] \<notin> set packets \<Longrightarrow> decoded_frames dec (decoder s) packets = map Some frames \<Longrightarrow>
   g_jitter_buffer s = packets \<Longrightarrow>
   \<exists>d'. (decoder_iteration dec ^^ length packets) s =
          s\<lparr>g_jitter_buffer := [], g_pcm_buffer := g_pcm_buffer s @ concat frames, decoder := d'\<rparr>"
proof (induction packets arbitrary: s frames)
  case Nil
  then show ?case
    by (intro exI [of _ "decoder s"]) simp
next
  case (Cons p ps)
  obtain accepted d1 where sp: "SetEncodedPacket dec (decoder s) p = (accepted, d1)"
    by (cases "SetEncodedPacket dec (decoder s) p")
  obtain decoded d2 where ds: "DecodeSamples dec d1 kFramesPerBuffer = (decoded, d2)"
    by (cases "DecodeSamples dec d1 kFramesPerBuffer")
  from Cons.prems(2) sp ds obtain f fs where
    fr: "frames = f # fs" and acc: accepted and dec: "decoded = Some f"
    and rest: "decoded_frames dec d2 ps = map Some fs"
    by (cases frames) (auto split: if_splits)
  let ?s1 = "decoder_iteration dec s"
  from Cons.prems(1) have pne: "p \<noteq> []" by auto
  have s1: "?s1 = s\<lparr>g_jitter_buffer := ps, g_pcm_buffer := g_pcm_buffer s @ f, decoder := d2\<rparr>"
    using decoder_iteration_packet [OF Cons.prems(3), of dec] sp ds acc dec pne
    by (simp add: Let_def)
  have "\<exists>d'. (decoder_iteration dec ^^ length ps) ?s1 =
          ?s1\<lparr>g_jitter_buffer := [], g_pcm_buffer := g_pcm_buffer ?s1 @ concat fs, decoder := d'\<rparr>"
    using Cons.prems(1) rest s1 by (intro Cons.IH) simp_all
  then obtain d' where
    "(decoder_iteration dec ^^ length ps) ?s1 =
       ?s1\<lparr>g_jitter_buffer := [], g_pcm_buffer := g_pcm_buffer ?s1 @ concat fs, decoder := d'\<rparr>"
    by blast
  then have "(decoder_iteration dec ^^ length (p # ps)) s =
       s\<lparr>g_jitter_buffer := [], g_pcm_buffer := g_pcm_buffer s @ concat frames, decoder := d'\<rparr>"
    using s1 fr by (simp add: funpow_swap1)
  then show ?case by blast
qed

lemma length_concat_frames:
  "\<forall>f \<in> set frames. length f = n \<Longrightarrow> length (concat frames) = n * length frames"
  by (induction frames) simp_all

text \<open>
  Claim C6. With 50 packets in the packet queue, none of them empty, which the codec
  decodes in queue order to 50 frames of 320 samples each, an empty sample queue, and a
  worker that makes at least 50 passes before it reads \<open>g_finished\<close> set (nothing else
  touching the queues), the worker returns with the packet queue empty and a sample
  queue of exactly 16000 samples: the 50 frames one after the other, in packet order.
\<close>

theorem decode_worker_drains_50:
  assumes "length packets = 50"
    and "[] \<notin> set packets"
    and "decoded_frames dec d0 packets = map Some frames"
    and "\<forall>f \<in> set frames. length f = 320"
    and "50 \<le> k"
  shows "\<exists>s'. decoder_thread_func dec (replicate k False @ [True])
                 \<lparr>g_jitter_buffer = packets, g_pcm_buffer = [], decoder = d0\<rparr> = Some s'
              \<and> g_jitter_buffer s' = []
              \<and> length (g_pcm_buffer s') = 16000
              \<and> g_pcm_buffer s' = concat frames"
proof -
  let ?s = "\<lparr>g_jitter_buffer = packets, g_pcm_buffer = [], decoder = d0\<rparr>"
  from assms(2,3) obtain d' where
    drained: "(decoder_iteration dec ^^ length packets) ?s =
       ?s\<lparr>g_jitter_buffer := [], g_pcm_buffer := g_pcm_buffer ?s @ concat frames, decoder := d'\<rparr>"
    using decoder_drain [of packets dec ?s frames] by auto
  let ?t = "\<lparr>g_jitter_buffer = [], g_pcm_buffer = concat frames, decoder = d'\<rparr>"
  from drained assms(1) have d50: "(decoder_iteration dec ^^ 50) ?s = ?t" by simp
  from assms(5) obtain j where k: "k = j + 50" by (metis le_add_diff_inverse2)
  have "(decoder_iteration dec ^^ k) ?s = (decoder_iteration dec ^^ j) ?t"
    unfolding k by (simp only: funpow_add o_apply d50)
  also have "\<dots> = ?t" by (simp add: decoder_iteration_idle_funpow)
  finally have run: "decoder_thread_func dec (replicate k False @ [True]) ?s = Some ?t"
    by (simp add: decoder_thread_func_runs)
  have "length frames = 50"
    using assms(1,3) length_decoded_frames [of dec d0 packets] by simp
  with assms(4) have "length (concat frames) = 16000"
    using length_concat_frames [of frames 320] by simp
  with run show ?thesis by simp
qed

lemma decoded_frames_test_decoder:
  "\<forall>b \<in> set bs. b \<noteq> 255 \<Longrightarrow>
   decoded_frames test_decoder d (map (replicate 8) bs) =
     map (\<lambda>b. Some (replicate 320 (ucast b))) bs"
  by (induction bs arbitrary: d)
     (simp_all add: test_decoder_def kFramesPerBuffer_def kSampleRate_def)



theorem decode_worker_drains_50_witness:
  "\<exists>s'. decoder_thread_func test_decoder (replicate 53 False @ [True])
           \<lparr>g_jitter_buffer = map (replicate 8) (map of_nat [1..<51] :: byte list),
            g_pcm_buffer = [], decoder = []\<rparr> = Some s'
        \<and> g_jitter_buffer s' = []
        \<and> length (g_pcm_buffer s') = 16000
        \<and> g_pcm_buffer s' =
            concat (map (\<lambda>b. replicate 320 (ucast b)) (map of_nat [1..<51] :: byte list))"
proof -
  let ?bs = "map of_nat [1..<51] :: byte list"
  have ok: "\<forall>b \<in> set ?bs. b \<noteq> 255" by code_simp
  have h1: "length (map (replicate 8) ?bs) = 50" by simp
  have h2: "[] \<notin> set (map (replicate 8) ?bs)" by auto
  have h3: "decoded_frames test_decoder [] (map (replicate 8) ?bs) =
              map Some (map (\<lambda>b. replicate 320 (ucast b)) ?bs)"
    using decoded_frames_test_decoder [OF ok, of "[]"] by (simp add: comp_def)
  have h4: "\<forall>f \<in> set (map (\<lambda>b. replicate 320 (ucast b :: sample)) ?bs). length f = 320" by auto
  have h5: "(50 :: nat) \<le> 53" by simp
  show ?thesis
    using decode_worker_drains_50 [OF h1 h2 h3 h4 h5] .
qed

section \<open>The sample queue has no maximum depth\<close>







section \<open>The audio callback of the loopback demo\<close>

lemma narrowed_frame_count_le:
  "nat (sint (ucast (N :: ulong) :: 32 word)) \<le> unat N"
proof -
  let ?w = "ucast N :: 32 word"
  have "- (2 ^ 31) \<le> uint ?w"
    by (rule order_trans [of _ 0]) simp_all
  then have "sint ?w \<le> uint ?w"
    by (simp add: sint_uint signed_take_bit_int_less_eq_self_iff)
  also have "uint ?w \<le> uint N"
    by (simp add: unsigned_ucast_eq take_bit_int_less_eq_self_iff)
  finally have "nat (sint ?w) \<le> nat (uint N)"
    by (rule nat_mono)
  then show ?thesis
    by (simp only: unat_eq_nat_uint)
qed

lemma frame_count_channels: "unat (N * word_of_int kNumChannels) = unat (N :: ulong)"
  by (simp add: kNumChannels_def)

text \<open>
  Claim C10. The demo's audio callback, given an output buffer of \<open>frameCount\<close> samples
  and a decoder whose frames have the number of samples asked for, returns \<open>paContinue\<close>
  in every case; and when a stage fails (the encoder returns no packet, the decoder
  refuses the packet, or it produces no frame) the whole output frame, all
  \<open>frameCount\<close> samples, is 0.
\<close>

theorem demo_callback_silence_on_failure:
  assumes "length out = unat N"
    and "\<forall>d n f. fst (DecodeSamples dec d n) = Some f \<longrightarrow> length f = nat n"
  shows "(case Encode enc e (take (unat N) inp) of (encoded, e1) \<Rightarrow>
           \<exists>out' e' d'. demo_audioCallback enc dec e d inp out N = Inr (paContinue, out', e', d')
             \<and> (encoded = None \<longrightarrow> out' = replicate (unat N) 0)
             \<and> (\<forall>packet. encoded = Some packet \<longrightarrow>
                  (case SetEncodedPacket dec d packet of (accepted, d1) \<Rightarrow>
                     (\<not> accepted \<longrightarrow> out' = replicate (unat N) 0)
                     \<and> (accepted \<and> fst (DecodeSamples dec d1 (sint (ucast N :: 32 word))) = None
                          \<longrightarrow> out' = replicate (unat N) 0))))"
proof -
  obtain encoded e1 where enc: "Encode enc e (take (unat N) inp) = (encoded, e1)"
    by (cases "Encode enc e (take (unat N) inp)")
  have fill_ok: "fill out (unat (N * word_of_int kNumChannels)) 0 = Inr (replicate (unat N) 0)"
    using assms(1) by (simp add: fill_def frame_count_channels)
  show ?thesis
  proof (cases encoded)
    case None
    with enc fill_ok show ?thesis
      by (simp add: demo_audioCallback_def)
  next
    case (Some packet)
    obtain accepted d1 where sp: "SetEncodedPacket dec d packet = (accepted, d1)"
      by (cases "SetEncodedPacket dec d packet")
    show ?thesis
    proof (cases accepted)
      case False
      with enc Some sp fill_ok show ?thesis
        by (simp add: demo_audioCallback_def)
    next
      case True
      obtain decoded d2 where ds: "DecodeSamples dec d1 (sint (ucast N :: 32 word)) = (decoded, d2)"
        by (cases "DecodeSamples dec d1 (sint (ucast N :: 32 word))")
      show ?thesis
      proof (cases decoded)
        case None
        with enc Some sp True ds fill_ok show ?thesis
          by (simp add: demo_audioCallback_def)
      next
        case (Some frame)
        with assms(2) ds have len: "length frame = nat (sint (ucast N :: 32 word))"
          by (metis fst_conv)
        then have "length frame \<le> unat N"
          using narrowed_frame_count_le [of N] by simp
        with assms(1) have "copy frame out = Inr (frame @ drop (length frame) out)"
          by (simp add: copy_def)
        with enc \<open>encoded = Some packet\<close> sp True ds Some show ?thesis
          by (simp add: demo_audioCallback_def)
      qed
    qed
  qed
qed


theorem demo_callback_silence_on_failure_witness:
  "demo_audioCallback test_encoder test_decoder () [] [3, 4, 5] [9, 9, 9] 3 =
     Inr (paContinue, [0, 0, 0], (), [])
   \<and> demo_audioCallback test_encoder test_decoder () [] (replicate 320 255) (replicate 320 9) 320 =
       Inr (paContinue, replicate 320 0, (), replicate 8 255)"
proof -
  have h2: "\<forall>d n f. fst (DecodeSamples test_decoder d n) = Some f \<longrightarrow> length f = nat n"
    by (simp add: test_decoder_def)
  have a: "demo_audioCallback test_encoder test_decoder () [] [3, 4, 5] [9, 9, 9] 3 =
             Inr (paContinue, [0, 0, 0], (), [])"
  proof -
    have h1: "length [9, 9, 9 :: sample] = unat (3 :: ulong)" by simp
    have enc: "Encode test_encoder () (take (unat (3 :: ulong)) [3, 4, 5]) = (None, ())"
      by (simp add: test_encoder_def)
    obtain out' e' d' where
      r: "demo_audioCallback test_encoder test_decoder () [] [3, 4, 5] [9, 9, 9] 3 =
            Inr (paContinue, out', e', d')"
      and z: "out' = replicate (unat (3 :: ulong)) 0"
      using demo_callback_silence_on_failure [OF h1 h2, where enc = test_encoder and e = "()"
          and inp = "[3, 4, 5]" and d = "[]"] enc
      by auto
    have "d' = []"
      using r by (simp add: demo_audioCallback_def test_encoder_def fill_def kNumChannels_def)
    moreover have "unat (3 :: ulong) = 3" by simp
    moreover have "replicate 3 (0 :: sample) = [0, 0, 0]" by (simp add: numeral_3_eq_3)
    ultimately have "demo_audioCallback test_encoder test_decoder () [] [3, 4, 5] [9, 9, 9] 3 =
        Inr (paContinue, [0, 0, 0], e', [])"
      using r z by (simp only:)
    then show ?thesis by simp
  qed
  have b: "demo_audioCallback test_encoder test_decoder () [] (replicate 320 255)
             (replicate 320 9) 320 = Inr (paContinue, replicate 320 0, (), replicate 8 255)"
  proof -
    have h1: "length (replicate 320 (9 :: sample)) = unat (320 :: ulong)" by simp
    have enc: "Encode test_encoder () (take (unat (320 :: ulong)) (replicate 320 255)) =
                 (Some (replicate 8 255), ())"
      by (simp add: test_encoder_def)
    have rej: "SetEncodedPacket test_decoder [] (replicate 8 255) = (False, replicate 8 255)"
      by (simp add: test_decoder_def)
    obtain out' e' d' where
      r: "demo_audioCallback test_encoder test_decoder () [] (replicate 320 255)
            (replicate 320 9) 320 = Inr (paContinue, out', e', d')"
      and z: "out' = replicate (unat (320 :: ulong)) 0"
      using demo_callback_silence_on_failure [OF h1 h2, where enc = test_encoder and e = "()"
          and inp = "replicate 320 255" and d = "[]"] enc rej
      by auto
    have "d' = replicate 8 255"
      using r enc rej by (simp add: demo_audioCallback_def fill_def kNumChannels_def)
    moreover have "unat (320 :: ulong) = 320" by simp
    ultimately have "demo_audioCallback test_encoder test_decoder () [] (replicate 320 255)
        (replicate 320 9) 320 = Inr (paContinue, replicate 320 0, e', replicate 8 255)"
      using r z by (simp only:)
    then show ?thesis by simp
  qed
  from a b show ?thesis by simp
qed

section \<open>The stop sequence\<close>

text \<open>
  A \<open>main\<close> that returns 0 has run its whole body, so its trace is the full list of
  calls.
\<close>

lemma receiver_main_clean:
  "snd (receiver_main argc e) = Returned 0 \<Longrightarrow>
   fst (receiver_main argc e) =
     [LyraDecoder_Create, Thread_Start NetworkThread, Thread_Start DecoderThread, Pa_Initialize,
      Pa_OpenStream, Pa_StartStream, Cin_Get, Set_g_finished, Shutdown_Socket,
      Thread_Join NetworkThread, Thread_Join DecoderThread,
      Pa_StopStream, Pa_CloseStream, Pa_Terminate]"
  by (simp add: receiver_main_def Let_def split: if_splits option.splits)

lemma sender_main_clean:
  "snd (sender_main argc e) = Returned 0 \<Longrightarrow>
   fst (sender_main argc e) =
     [LyraEncoder_Create, Thread_Start NetworkThread, Pa_Initialize,
      Pa_OpenStream, Pa_StartStream, Cin_Get, Set_g_finished,
      Pa_StopStream, Pa_CloseStream, Pa_Terminate, Thread_Join NetworkThread]"
  by (simp add: sender_main_def Let_def split: if_splits option.splits)

text \<open>
  Claim C2, as amended. The receiver's stop sequence sets the shutdown flag, then shuts
  down the socket, then joins the network thread and the decoder thread, and only then
  stops and closes the audio stream. The sender's stop sequence is a different one: it
  sets the shutdown flag, stops and closes the audio stream, and joins its network thread
  last; it never shuts the socket down from \<open>main\<close> (its network thread polls and does
  not block in a receive).
\<close>

theorem stop_sequence_order:
  "(snd (receiver_main argc e) = Returned 0 \<longrightarrow>
      stop_order [NetworkThread, DecoderThread] (fst (receiver_main argc e)))
   \<and> (snd (sender_main argc e) = Returned 0 \<longrightarrow>
        precedes Set_g_finished Pa_StopStream (fst (sender_main argc e))
        \<and> precedes Pa_StopStream Pa_CloseStream (fst (sender_main argc e))
        \<and> precedes Pa_CloseStream (Thread_Join NetworkThread) (fst (sender_main argc e))
        \<and> Shutdown_Socket \<notin> set (fst (sender_main argc e)))"
proof (intro conjI impI)
  assume "snd (receiver_main argc e) = Returned 0"
  then show "stop_order [NetworkThread, DecoderThread] (fst (receiver_main argc e))"
    by (simp add: receiver_main_clean stop_order_def precedes_def)
next
  assume s: "snd (sender_main argc e) = Returned 0"
  show "precedes Set_g_finished Pa_StopStream (fst (sender_main argc e))"
    by (simp add: sender_main_clean [OF s] precedes_def)
  show "precedes Pa_StopStream Pa_CloseStream (fst (sender_main argc e))"
    by (simp add: sender_main_clean [OF s] precedes_def)
  show "precedes Pa_CloseStream (Thread_Join NetworkThread) (fst (sender_main argc e))"
    by (simp add: sender_main_clean [OF s] precedes_def)
  show "Shutdown_Socket \<notin> set (fst (sender_main argc e))"
    by (simp add: sender_main_clean [OF s])
qed

theorem stop_sequence_order_witness:
  "snd (receiver_main 2 env_ok) = Returned 0
   \<and> stop_order [NetworkThread, DecoderThread] (fst (receiver_main 2 env_ok))
   \<and> snd (sender_main 3 env_ok) = Returned 0
   \<and> precedes Pa_CloseStream (Thread_Join NetworkThread) (fst (sender_main 3 env_ok))
   \<and> Shutdown_Socket \<notin> set (fst (sender_main 3 env_ok))"
proof -
  have r: "snd (receiver_main 2 env_ok) = Returned 0"
    by (simp add: receiver_main_def Let_def env_ok_def)
  have s: "snd (sender_main 3 env_ok) = Returned 0"
    by (simp add: sender_main_def Let_def env_ok_def)
  from r s stop_sequence_order [of 2 env_ok] stop_sequence_order [of 3 env_ok]
  show ?thesis by blast
qed

text \<open>
  Claim C2 as stated fails for the sender: on a run in which every call succeeds, the
  sender's trace does not have the order flag, transport shutdown, join, stream stop.
\<close>

theorem sender_stop_order_counterexample:
  "snd (sender_main 3 env_ok) = Returned 0
   \<and> \<not> stop_order [NetworkThread] (fst (sender_main 3 env_ok))"
  by (simp add: sender_main_def Let_def env_ok_def stop_order_def precedes_def)

section \<open>Exit codes\<close>

text \<open>
  Claim C3, as amended. Every executable exits with code 1 when codec construction
  fails, before it starts a thread or touches the audio device, and with code 0 when the
  port argument, the codec and the PortAudio calls all succeed. The loopback demo also
  exits with code 1, without ever waiting for the stop signal, when PortAudio
  initialisation, the lookup of a default device, or the opening or starting of the
  stream fails. A socket or bind failure is not fatal to the process: the network thread
  of the receiver or the sender returns at once and leaves its queue as it was, and
  \<open>main\<close>, whose exit code does not depend on it, still exits with code 0.
\<close>

theorem init_failure_exit_codes:
  "(argc = 2 \<and> stoi_port e \<noteq> None \<and> \<not> decoder_created e \<longrightarrow>
      receiver_main argc e = ([LyraDecoder_Create], Returned 1))
   \<and> (argc = 3 \<and> stoi_port e \<noteq> None \<and> \<not> encoder_created e \<longrightarrow>
      sender_main argc e = ([LyraEncoder_Create], Returned 1))
   \<and> (\<not> encoder_created e \<or> \<not> decoder_created e \<longrightarrow>
      demo_main e = ([LyraEncoder_Create, LyraDecoder_Create], Returned 1))
   \<and> (encoder_created e \<and> decoder_created e \<and>
       (r_Pa_Initialize e \<noteq> paNoError \<or> default_input_device e = None \<or>
        default_output_device e = None \<or> r_Pa_OpenStream e \<noteq> paNoError \<or>
        r_Pa_StartStream e \<noteq> paNoError) \<longrightarrow>
      snd (demo_main e) = Returned 1 \<and> Cin_Get \<notin> set (fst (demo_main e)))
   \<and> (calls_succeed e \<longrightarrow>
      snd (receiver_main 2 e) = Returned 0 \<and> snd (sender_main 3 e) = Returned 0 \<and>
      snd (demo_main e) = Returned 0)
   \<and> (socket_result e < 0 \<longrightarrow>
      receiver_network_thread_func e ticks q = Some (SocketFailed, socket_result e, q) \<and>
      sender_network_thread_func e reads st = Some (SocketFailed, st))
   \<and> (0 \<le> socket_result e \<and> bind_result e < 0 \<longrightarrow>
      receiver_network_thread_func e ticks q = Some (BindFailed, socket_result e, q))"
proof (intro conjI impI)
  assume "argc = 2 \<and> stoi_port e \<noteq> None \<and> \<not> decoder_created e"
  then show "receiver_main argc e = ([LyraDecoder_Create], Returned 1)"
    by (auto simp add: receiver_main_def Let_def)
next
  assume "argc = 3 \<and> stoi_port e \<noteq> None \<and> \<not> encoder_created e"
  then show "sender_main argc e = ([LyraEncoder_Create], Returned 1)"
    by (auto simp add: sender_main_def Let_def)
next
  assume "\<not> encoder_created e \<or> \<not> decoder_created e"
  then show "demo_main e = ([LyraEncoder_Create, LyraDecoder_Create], Returned 1)"
    by (auto simp add: demo_main_def Let_def)
next
  assume a: "encoder_created e \<and> decoder_created e \<and>
       (r_Pa_Initialize e \<noteq> paNoError \<or> default_input_device e = None \<or>
        default_output_device e = None \<or> r_Pa_OpenStream e \<noteq> paNoError \<or>
        r_Pa_StartStream e \<noteq> paNoError)"
  then show "snd (demo_main e) = Returned 1"
    by (auto simp add: demo_main_def Let_def)
  from a show "Cin_Get \<notin> set (fst (demo_main e))"
    by (auto simp add: demo_main_def Let_def)
next
  assume c: "calls_succeed e"
  then show "snd (receiver_main 2 e) = Returned 0"
    by (auto simp add: calls_succeed_def receiver_main_def Let_def)
  from c show "snd (sender_main 3 e) = Returned 0"
    by (auto simp add: calls_succeed_def sender_main_def Let_def)
  from c show "snd (demo_main e) = Returned 0"
    by (auto simp add: calls_succeed_def demo_main_def Let_def)
next
  assume "socket_result e < 0"
  then show "receiver_network_thread_func e ticks q = Some (SocketFailed, socket_result e, q)"
    by (simp add: receiver_network_thread_func_def)
next
  assume "socket_result e < 0"
  then show "sender_network_thread_func e reads st = Some (SocketFailed, st)"
    by (simp add: sender_network_thread_func_def)
next
  assume "0 \<le> socket_result e \<and> bind_result e < 0"
  then show "receiver_network_thread_func e ticks q = Some (BindFailed, socket_result e, q)"
    by (simp add: receiver_network_thread_func_def)
qed


theorem init_failure_exit_codes_witness:
  "receiver_main 2 (env_ok\<lparr>decoder_created := False\<rparr>) = ([LyraDecoder_Create], Returned 1)
   \<and> sender_main 3 (env_ok\<lparr>encoder_created := False\<rparr>) = ([LyraEncoder_Create], Returned 1)
   \<and> demo_main (env_ok\<lparr>decoder_created := False\<rparr>) =
        ([LyraEncoder_Create, LyraDecoder_Create], Returned 1)
   \<and> snd (demo_main (env_ok\<lparr>r_Pa_OpenStream := paOtherError\<rparr>)) = Returned 1
   \<and> Cin_Get \<notin> set (fst (demo_main (env_ok\<lparr>r_Pa_OpenStream := paOtherError\<rparr>)))
   \<and> snd (receiver_main 2 env_ok) = Returned 0
   \<and> snd (sender_main 3 env_ok) = Returned 0
   \<and> snd (demo_main env_ok) = Returned 0
   \<and> receiver_network_thread_func (env_ok\<lparr>socket_result := - 1\<rparr>) [(False, Datagram [1])] [] =
        Some (SocketFailed, - 1, [])
   \<and> sender_network_thread_func (env_ok\<lparr>socket_result := - 1\<rparr>) [False] ([[1]], []) =
        Some (SocketFailed, [[1]], [])
   \<and> receiver_network_thread_func (env_ok\<lparr>bind_result := - 1\<rparr>) [(False, Datagram [1])] [] =
        Some (BindFailed, 3, [])"
proof -
  have 1: "receiver_main 2 (env_ok\<lparr>decoder_created := False\<rparr>) = ([LyraDecoder_Create], Returned 1)"
    using init_failure_exit_codes [where argc = 2 and e = "env_ok\<lparr>decoder_created := False\<rparr>"]
    by (simp add: env_ok_def)
  have 2: "sender_main 3 (env_ok\<lparr>encoder_created := False\<rparr>) = ([LyraEncoder_Create], Returned 1)"
    using init_failure_exit_codes [where argc = 3 and e = "env_ok\<lparr>encoder_created := False\<rparr>"]
    by (simp add: env_ok_def)
  have 3: "demo_main (env_ok\<lparr>decoder_created := False\<rparr>) =
        ([LyraEncoder_Create, LyraDecoder_Create], Returned 1)"
    using init_failure_exit_codes [where e = "env_ok\<lparr>decoder_created := False\<rparr>"]
    by (simp add: env_ok_def)
  have 4: "snd (demo_main (env_ok\<lparr>r_Pa_OpenStream := paOtherError\<rparr>)) = Returned 1
           \<and> Cin_Get \<notin> set (fst (demo_main (env_ok\<lparr>r_Pa_OpenStream := paOtherError\<rparr>)))"
    using init_failure_exit_codes [where e = "env_ok\<lparr>r_Pa_OpenStream := paOtherError\<rparr>"]
    by (simp add: env_ok_def)
  have 5: "snd (receiver_main 2 env_ok) = Returned 0 \<and> snd (sender_main 3 env_ok) = Returned 0
           \<and> snd (demo_main env_ok) = Returned 0"
    using init_failure_exit_codes [where e = env_ok]
    by (simp add: env_ok_def calls_succeed_def)
  have 6: "receiver_network_thread_func (env_ok\<lparr>socket_result := - 1\<rparr>) [(False, Datagram [1])] [] =
             Some (SocketFailed, - 1, [])
           \<and> sender_network_thread_func (env_ok\<lparr>socket_result := - 1\<rparr>) [False] ([[1]], []) =
             Some (SocketFailed, [[1]], [])"
    using init_failure_exit_codes [where e = "env_ok\<lparr>socket_result := - 1\<rparr>"
        and ticks = "[(False, Datagram [1])]" and q = "[]" and reads = "[False]" and st = "([[1]], [])"]
    by (simp add: env_ok_def)
  have 7: "receiver_network_thread_func (env_ok\<lparr>bind_result := - 1\<rparr>) [(False, Datagram [1])] [] =
             Some (BindFailed, 3, [])"
    using init_failure_exit_codes [where e = "env_ok\<lparr>bind_result := - 1\<rparr>"
        and ticks = "[(False, Datagram [1])]" and q = "[]"]
    by (simp add: env_ok_def)
  from 1 2 3 4 5 6 7 show ?thesis by blast
qed

text \<open>
  Claim C3 as stated fails: with a socket that cannot be created, the receiver's network
  thread returns without receiving, yet \<open>main\<close> starts the audio stream and exits with
  code 0.
\<close>

theorem init_failure_exit_code_counterexample:
  "socket_result (env_ok\<lparr>socket_result := - 1\<rparr>) < 0
   \<and> receiver_network_thread_func (env_ok\<lparr>socket_result := - 1\<rparr>) [(False, Datagram [1])] [] =
        Some (SocketFailed, - 1, [])
   \<and> snd (receiver_main 2 (env_ok\<lparr>socket_result := - 1\<rparr>)) = Returned 0
   \<and> Pa_StartStream \<in> set (fst (receiver_main 2 (env_ok\<lparr>socket_result := - 1\<rparr>)))"
  by (simp add: env_ok_def receiver_main_def receiver_network_thread_func_def Let_def)


end
